theory Spec2Isabelle
  imports
    Complex_Main
    "HOL-Library.AList"
    "HOL-Library.Char_ord"
    "HOL-Library.List_Lexorder"
    "HOL-Library.Product_Lexorder"
begin

unbundle bit_operations_syntax

section \<open>Values of the source language\<close>

text \<open>
  A JavaScript \<open>number\<close> that carries a measurement (a vector component, a similarity,
  a score) is a \<^typ>\<open>real\<close>: rounding, overflow to infinity and NaN produced by
  arithmetic are outside the model. A \<open>number\<close> that counts or indexes is a \<^typ>\<open>nat\<close>,
  a timestamp and a hash code are an \<^typ>\<open>int\<close>. A \<open>number[]\<close> is a list, a string is
  a \<^typ>\<open>string\<close>. A \<open>Map\<close> whose iteration order is observed is an association list
  updated the way \<open>Map.set\<close> does it (\<^const>\<open>AList.update\<close>: in place when the key is
  there, at the end otherwise); a \<open>Map\<close> that is only looked up is a partial function.
\<close>

datatype js_error =
    TypeError
  | StoreUnavailable
  | RequestFailed string
  | EmbeddingFailed

subsection \<open>Strings\<close>

text \<open>\<open>\s\<close> on the ASCII range: space, tab, line feed, vertical tab, form feed, carriage return.\<close>

definition isSpace :: "char \<Rightarrow> bool" where
  "isSpace c = (c \<in> set [CHR '' '', CHR 0x09, CHR 0x0A, CHR 0x0B, CHR 0x0C, CHR 0x0D])"

text \<open>
  \<open>String.prototype.toLowerCase\<close> on the ASCII range. The capital letters are the bytes
  \<open>0x41\<close> to \<open>0x5A\<close>: the three high bits are \<open>010\<close> and the five low bits hold a number
  from 1 to 26. Lowering sets bit 5 (adds 32); every other byte is kept. The bits of
  \<^const>\<open>Char\<close> are listed from the lowest.
\<close>

fun lowerChar :: "char \<Rightarrow> char" where
  "lowerChar (Char b0 b1 b2 b3 b4 b5 b6 b7) =
     (if \<not> b7 \<and> b6 \<and> \<not> b5 \<and> (b0 \<or> b1 \<or> b2 \<or> b3 \<or> b4) \<and> \<not> (b4 \<and> b3 \<and> (b2 \<or> b1 \<and> b0))
      then Char b0 b1 b2 b3 b4 True b6 b7
      else Char b0 b1 b2 b3 b4 b5 b6 b7)"

definition toLowerCase :: "string \<Rightarrow> string" where
  "toLowerCase s = map lowerChar s"

text \<open>\<open>haystack.includes(needle)\<close>: the needle occurs as a contiguous run.\<close>

fun startsWith :: "string \<Rightarrow> string \<Rightarrow> bool" where
  "startsWith _ [] = True"
| "startsWith [] (_ # _) = False"
| "startsWith (c # cs) (d # ds) = (if c = d then startsWith cs ds else False)"

fun includesStr :: "string \<Rightarrow> string \<Rightarrow> bool" where
  "includesStr [] needle = (needle = [])"
| "includesStr (c # cs) needle = (if startsWith (c # cs) needle then True else includesStr cs needle)"

text \<open>
  \<open>s.split(/\s+/)\<close>: the pieces between maximal runs of white space. A leading or a
  trailing run leaves an empty piece at that end, and the empty string splits into one
  empty piece. The flag says whether the previous character belonged to a separator.
\<close>

fun splitFrom :: "bool \<Rightarrow> string \<Rightarrow> string list" where
  "splitFrom inSep [] = [[]]"
| "splitFrom inSep (c # cs) =
     (if isSpace c then (if inSep then splitFrom True cs else [] # splitFrom True cs)
      else (case splitFrom False cs of
              w # ws \<Rightarrow> (c # w) # ws
            | [] \<Rightarrow> [[c]]))"

definition splitWhitespace :: "string \<Rightarrow> string list" where
  "splitWhitespace s = splitFrom False s"

text \<open>\<open>Array.prototype.join(" ")\<close>.\<close>

fun joinSpace :: "string list \<Rightarrow> string" where
  "joinSpace [] = []"
| "joinSpace [w] = w"
| "joinSpace (w # v # ws) = w @ '' '' @ joinSpace (v # ws)"

subsection \<open>Insertion-ordered sets and stable sorting\<close>

text \<open>\<open>Set.prototype.add\<close>: a new element goes to the end, a present one changes nothing.\<close>

definition setAdd :: "'a \<Rightarrow> 'a list \<Rightarrow> 'a list" where
  "setAdd x xs = (if x \<in> set xs then xs else xs @ [x])"

text \<open>
  \<open>xs.sort((a, b) => key(b) - key(a))\<close>: descending in the key, and stable
  (ECMAScript 2019), as insertion sort on the negated key is.
\<close>

definition sortDescending :: "('a \<Rightarrow> real) \<Rightarrow> 'a list \<Rightarrow> 'a list" where
  "sortDescending key xs = sort_key (\<lambda>x. - key x) xs"

section \<open>Data model (shared/extension-types.ts)\<close>

text \<open>
  The fields that the modelled functions read or write. \<open>node_id\<close> and \<open>node_keywords\<close>
  are the fields \<open>id\<close> and \<open>keywords\<close> of a \<open>MemoryNode\<close>, \<open>emb_timestamp\<close> is the field
  \<open>timestamp\<close> of an \<open>Embedding\<close>. The optional fields (\<open>summary\<close>, \<open>embedding\<close>, \<open>favicon\<close>,
  \<open>tabId\<close>, \<open>sessionId\<close>) are not read by these functions and are left out.
\<close>

record Metadata =
  domain :: string

record MemoryNode =
  node_id :: string
  url :: string
  title :: string
  readableText :: string
  timestamp :: int
  node_keywords :: "string list"
  metadata :: Metadata

record Embedding =
  vector :: "real list"
  model :: string
  emb_timestamp :: int

record Reason =
  sharedKeywords :: "string list"
  contextMatch :: string
  semanticSimilarity :: real

record SemanticMatch =
  nodeId :: string
  similarity :: real
  node :: MemoryNode
  reason :: Reason

section \<open>Vector search (utils/vector-search.ts)\<close>

subsection \<open>cosineSimilarity\<close>

text \<open>
  The loop over \<open>i < vecA.length\<close>, with its three accumulators, and the function. The
  arithmetic is carried out exactly. The source computes in IEEE 754 doubles, where
  every operation rounds, a sum can overflow and a square can underflow to 0: its
  value agrees with the one below up to these effects only, which is why no statement
  about the numeric range of the doubles is made from this definition.
\<close>

fun cosineLoop :: "real list \<Rightarrow> real list \<Rightarrow> real \<times> real \<times> real \<Rightarrow> real \<times> real \<times> real" where
  "cosineLoop (a # as) (b # bs) (dotProduct, normA, normB) =
     cosineLoop as bs (dotProduct + a * b, normA + a * a, normB + b * b)"
| "cosineLoop _ _ acc = acc"

definition cosineSimilarity :: "real list \<Rightarrow> real list \<Rightarrow> real" where
  "cosineSimilarity vecA vecB =
     (if length vecA \<noteq> length vecB then 0
      else case cosineLoop vecA vecB (0, 0, 0) of
        (dotProduct, normA, normB) \<Rightarrow>
          if normA = 0 \<or> normB = 0 then 0
          else dotProduct / (sqrt normA * sqrt normB))"

text \<open>The quantities the loop accumulates, for stating properties.\<close>

definition dotProductOf :: "real list \<Rightarrow> real list \<Rightarrow> real" where
  "dotProductOf a b = sum_list (map2 (*) a b)"

definition squaredNorm :: "real list \<Rightarrow> real" where
  "squaredNorm a = sum_list (map (\<lambda>v. v * v) a)"

subsection \<open>ANNIndex\<close>

definition numHashes :: nat where
  "numHashes = 16"

definition dim :: nat where
  "dim = 384"

text \<open>
  The constructor fills \<open>projectionMatrix\<close> with \<open>numHashes\<close> rows of \<open>dim\<close> random
  numbers; the matrix is a function of the row and the column, any such function
  being a possible draw.
\<close>

record ANNIndex =
  vectors :: "(string \<times> real list) list"
  hashes :: "string \<rightharpoonup> int"
  buckets :: "int \<rightharpoonup> string list"
  projectionMatrix :: "nat \<Rightarrow> nat \<Rightarrow> real"

text \<open>
  The inner loop of \<open>computeHash\<close> reads \<open>vector[j]\<close> for every \<open>j < dim\<close>. On a vector
  shorter than \<open>dim\<close> a read past the end is \<open>undefined\<close>, the product is NaN and so is
  the sum from there on: \<open>None\<close>. The test \<open>dot > 0\<close> is false on NaN.
\<close>

definition rowDot :: "(nat \<Rightarrow> nat \<Rightarrow> real) \<Rightarrow> real list \<Rightarrow> nat \<Rightarrow> real option" where
  "rowDot pm v i =
     (if length v < dim then None
      else Some (sum_list (map (\<lambda>j. v ! j * pm i j) [0..<dim])))"

definition hashStep :: "(nat \<Rightarrow> nat \<Rightarrow> real) \<Rightarrow> real list \<Rightarrow> nat \<Rightarrow> int \<Rightarrow> int" where
  "hashStep pm v i hash =
     (case rowDot pm v i of
        Some d \<Rightarrow> if d > 0 then hash OR push_bit i 1 else hash
      | None \<Rightarrow> hash)"

definition computeHash :: "(nat \<Rightarrow> nat \<Rightarrow> real) \<Rightarrow> real list \<Rightarrow> int" where
  "computeHash pm v = fold (hashStep pm v) [0..<numHashes] 0"

definition ANN_add :: "ANNIndex \<Rightarrow> string \<Rightarrow> real list \<Rightarrow> ANNIndex" where
  "ANN_add idx nid v =
     (let hash = computeHash (projectionMatrix idx) v;
          bucket = (case buckets idx hash of None \<Rightarrow> [] | Some b \<Rightarrow> b)
      in idx\<lparr> vectors := AList.update nid v (vectors idx),
              hashes := (hashes idx)(nid \<mapsto> hash),
              buckets := (buckets idx)(hash \<mapsto> bucket @ [nid]) \<rparr>)"

definition ANN_remove :: "ANNIndex \<Rightarrow> string \<Rightarrow> ANNIndex" where
  "ANN_remove idx nid =
     (let bs = (case hashes idx nid of
                  None \<Rightarrow> buckets idx
                | Some hash \<Rightarrow>
                    (case buckets idx hash of
                       None \<Rightarrow> buckets idx
                     | Some bucket \<Rightarrow> (buckets idx)(hash \<mapsto> filter (\<lambda>i. i \<noteq> nid) bucket)))
      in idx\<lparr> vectors := AList.delete nid (vectors idx),
              hashes := (hashes idx)(nid := None),
              buckets := bs \<rparr>)"

definition ANN_clear :: "ANNIndex \<Rightarrow> ANNIndex" where
  "ANN_clear idx = idx\<lparr> vectors := [], hashes := Map.empty, buckets := Map.empty \<rparr>"

text \<open>A fresh index: the three maps empty, the matrix drawn.\<close>

definition ANN_new :: "(nat \<Rightarrow> nat \<Rightarrow> real) \<Rightarrow> ANNIndex" where
  "ANN_new pm = \<lparr> vectors = [], hashes = Map.empty, buckets = Map.empty, projectionMatrix = pm \<rparr>"

text \<open>The query's hash, then the hash with bit \<open>i\<close> flipped for each \<open>i < numHashes\<close>.\<close>

definition searchHashes :: "int \<Rightarrow> int list" where
  "searchHashes queryHash = queryHash # map (\<lambda>i. queryHash XOR push_bit i 1) [0..<numHashes]"

definition addBucket :: "(int \<rightharpoonup> string list) \<Rightarrow> int \<Rightarrow> string list \<Rightarrow> string list" where
  "addBucket bs h candidates =
     (case bs h of None \<Rightarrow> candidates | Some bucket \<Rightarrow> fold setAdd bucket candidates)"

definition bucketCandidates :: "(int \<rightharpoonup> string list) \<Rightarrow> int \<Rightarrow> string list" where
  "bucketCandidates bs queryHash = fold (addBucket bs) (searchHashes queryHash) []"

text \<open>
  The fallback loop over \<open>this.vectors.keys()\<close>: add the key, then leave the loop when
  the set has grown beyond 100 elements.
\<close>

fun fallback :: "string list \<Rightarrow> string list \<Rightarrow> string list" where
  "fallback [] candidates = candidates"
| "fallback (nid # rest) candidates =
     (let candidates' = setAdd nid candidates
      in if length candidates' > 100 then candidates' else fallback rest candidates')"

definition searchCandidates :: "ANNIndex \<Rightarrow> real list \<Rightarrow> nat \<Rightarrow> string list" where
  "searchCandidates idx queryVector k =
     (let candidates = bucketCandidates (buckets idx) (computeHash (projectionMatrix idx) queryVector)
      in if length candidates < k then fallback (map fst (vectors idx)) candidates
         else candidates)"

text \<open>
  The scoring loop. \<open>this.vectors.get(nodeId)!\<close> is \<open>undefined\<close> for an id without a
  vector, and \<open>cosineSimilarity\<close> then reads \<open>.length\<close> of \<open>undefined\<close>: a TypeError,
  which ends the call.
\<close>

fun scoreCandidates ::
  "(string \<times> real list) list \<Rightarrow> real list \<Rightarrow> real \<Rightarrow> string list \<Rightarrow> js_error + (string \<times> real) list" where
  "scoreCandidates vs queryVector threshold [] = Inr []"
| "scoreCandidates vs queryVector threshold (nid # rest) =
     (case map_of vs nid of
        None \<Rightarrow> Inl TypeError
      | Some v \<Rightarrow>
          (case scoreCandidates vs queryVector threshold rest of
             Inl e \<Rightarrow> Inl e
           | Inr results \<Rightarrow>
               if cosineSimilarity queryVector v \<ge> threshold
               then Inr ((nid, cosineSimilarity queryVector v) # results)
               else Inr results))"

definition ANN_search ::
  "ANNIndex \<Rightarrow> real list \<Rightarrow> nat \<Rightarrow> real \<Rightarrow> js_error + (string \<times> real) list" where
  "ANN_search idx queryVector k threshold =
     (case scoreCandidates (vectors idx) queryVector threshold (searchCandidates idx queryVector k) of
        Inl e \<Rightarrow> Inl e
      | Inr results \<Rightarrow> Inr (take k (sortDescending snd results)))"

subsection \<open>Histories of an index\<close>

text \<open>
  The three mutating methods as operations, and an index after a sequence of them.
\<close>

datatype ann_op = Add string "real list" | Remove string | Clear

fun applyOp :: "ANNIndex \<Rightarrow> ann_op \<Rightarrow> ANNIndex" where
  "applyOp idx (Add nid v) = ANN_add idx nid v"
| "applyOp idx (Remove nid) = ANN_remove idx nid"
| "applyOp idx Clear = ANN_clear idx"

definition runOps :: "ANNIndex \<Rightarrow> ann_op list \<Rightarrow> ANNIndex" where
  "runOps idx ops = fold (\<lambda>op i. applyOp i op) ops idx"

fun addedIds :: "ann_op list \<Rightarrow> string list" where
  "addedIds [] = []"
| "addedIds (Add nid v # ops) = nid # addedIds ops"
| "addedIds (_ # ops) = addedIds ops"

text \<open>The ids with an entry in the vector map.\<close>

definition indexedIds :: "ANNIndex \<Rightarrow> string set" where
  "indexedIds idx = fst ` set (vectors idx)"

text \<open>Every id in a bucket has a vector: what the lookup in \<open>search\<close> relies on.\<close>

definition bucketsIndexed :: "ANNIndex \<Rightarrow> bool" where
  "bucketsIndexed idx = (\<forall>h b. buckets idx h = Some b \<longrightarrow> set b \<subseteq> indexedIds idx)"

text \<open>
  The stronger fact that histories without a repeated \<open>add\<close> maintain: an id occurs only
  in the bucket that the hash map records for it, and the hash map and the vector map
  have the same keys.
\<close>

definition bucketsRecorded :: "ANNIndex \<Rightarrow> bool" where
  "bucketsRecorded idx =
     ((\<forall>h b nid. buckets idx h = Some b \<and> nid \<in> set b \<longrightarrow> hashes idx nid = Some h)
      \<and> dom (hashes idx) = indexedIds idx)"

subsection \<open>Example draws and histories\<close>

text \<open>A possible draw of the projection matrix, and the vector with \<open>dim\<close> equal components.\<close>

definition onesMatrix :: "nat \<Rightarrow> nat \<Rightarrow> real" where
  "onesMatrix i j = 1"

definition constVector :: "real \<Rightarrow> real list" where
  "constVector c = replicate dim c"

text \<open>A history in which no id is added twice.\<close>

definition historyExample :: "ann_op list" where
  "historyExample = [Add ''a'' [1, 0], Add ''b'' (constVector 1), Remove ''a'', Clear, Add ''c'' []]"

text \<open>
  An id stored twice, with vectors on opposite sides of every hyperplane, then removed:
  what \<open>storeEmbedding\<close> on a page captured again with new content followed by a
  deletion does to the index.
\<close>

definition staleHistory :: "ann_op list" where
  "staleHistory = [Add ''a'' (constVector (- 1)), Add ''a'' (constVector 1), Remove ''a'']"

text \<open>
  An index holding 150 ids, all in bucket 0, far from the bucket of the query \<open>constVector 1\<close>.
\<close>

definition manyIds :: "nat \<Rightarrow> string list" where
  "manyIds n = map (\<lambda>j. ''page_'' @ replicate j CHR ''x'') [0..<n]"

definition crowdedIndex :: ANNIndex where
  "crowdedIndex = runOps (ANN_new onesMatrix) (map (\<lambda>i. Add i (constVector (- 1))) (manyIds 150))"

section \<open>Storage layer (utils/storage.ts)\<close>

text \<open>
  The IndexedDB database is state passed through every method. Whether a request or a
  transaction of the browser completes or errors is not decided by the program: each
  method takes that outcome as an argument.
\<close>

datatype idb_outcome = Completes | Errors

text \<open>
  A record of the \<open>embeddings\<close> object store: \<open>{ nodeId, ...embedding }\<close>.
\<close>

record EmbeddingRow =
  row_nodeId :: string
  row_vector :: "real list"
  row_model :: string
  row_timestamp :: int

text \<open>
  The storage object: \<open>opened\<close> says whether \<open>initPromise\<close> resolved (every method awaits
  \<open>ready()\<close> first and rejects otherwise); the object stores \<open>pages\<close> (key path \<open>id\<close>) and
  \<open>embeddings\<close> (key path \<open>nodeId\<close>) hold one record per key; \<open>annIndex\<close> is the in-memory
  index. The stores for clusters, graph edges, settings and rules are not read by the
  methods below and are left out.
\<close>

record CortexStorage =
  opened :: bool
  pages :: "(string \<times> MemoryNode) list"
  embeddings :: "(string \<times> EmbeddingRow) list"
  annIndex :: ANNIndex

definition addMemoryNode :: "idb_outcome \<Rightarrow> CortexStorage \<Rightarrow> MemoryNode \<Rightarrow> (js_error + unit) \<times> CortexStorage" where
  "addMemoryNode out st n =
     (if \<not> opened st then (Inl StoreUnavailable, st)
      else case out of
        Errors \<Rightarrow> (Inl (RequestFailed ''Failed to add memory node''), st)
      | Completes \<Rightarrow> (Inr (), st\<lparr> pages := AList.update (node_id n) n (pages st) \<rparr>))"

definition getMemoryNode :: "idb_outcome \<Rightarrow> CortexStorage \<Rightarrow> string \<Rightarrow> js_error + MemoryNode option" where
  "getMemoryNode out st i =
     (if \<not> opened st then Inl StoreUnavailable
      else case out of
        Errors \<Rightarrow> Inl (RequestFailed ''Failed to get memory node'')
      | Completes \<Rightarrow> Inr (map_of (pages st) i))"

text \<open>
  The index \<open>timestamp\<close> of the \<open>pages\<close> store: IndexedDB keeps the records of an index in
  ascending order of the index key, then of the primary key.
\<close>

definition timestampIndex :: "(string \<times> MemoryNode) list \<Rightarrow> MemoryNode list" where
  "timestampIndex ps = sort_key (\<lambda>n. (timestamp n, node_id n)) (map snd ps)"

text \<open>
  With a truthy \<open>limit\<close> a cursor walks the index in direction \<open>prev\<close> and stops after
  \<open>limit\<close> records; otherwise (\<open>undefined\<close>, or 0) \<open>index.getAll()\<close> returns the records in
  the order of the index.
\<close>

definition getAllMemoryNodes :: "idb_outcome \<Rightarrow> CortexStorage \<Rightarrow> nat option \<Rightarrow> js_error + MemoryNode list" where
  "getAllMemoryNodes out st limit =
     (if \<not> opened st then Inl StoreUnavailable
      else case out of
        Errors \<Rightarrow> Inl (RequestFailed ''Failed to get memory nodes'')
      | Completes \<Rightarrow>
          (case limit of
             Some l \<Rightarrow>
               if l \<noteq> 0 then Inr (take l (rev (timestampIndex (pages st))))
               else Inr (timestampIndex (pages st))
           | None \<Rightarrow> Inr (timestampIndex (pages st))))"

text \<open>
  \<open>searchMemoryNodes\<close>: one point for each query term found in title, text and keywords.
\<close>

definition searchText :: "MemoryNode \<Rightarrow> string" where
  "searchText n = title n @ '' '' @ readableText n @ '' '' @ joinSpace (node_keywords n)"

definition termScore :: "string list \<Rightarrow> MemoryNode \<Rightarrow> nat" where
  "termScore queryTerms n =
     length (filter (\<lambda>term. includesStr (toLowerCase (searchText n)) term) queryTerms)"

definition searchMemoryNodes :: "idb_outcome \<Rightarrow> CortexStorage \<Rightarrow> string \<Rightarrow> nat \<Rightarrow> js_error + MemoryNode list" where
  "searchMemoryNodes out st queryText limit =
     (case getAllMemoryNodes out st None of
        Inl e \<Rightarrow> Inl e
      | Inr allNodes \<Rightarrow>
          (let queryTerms = splitWhitespace (toLowerCase queryText);
               scored = take limit
                          (sortDescending (\<lambda>r. real (snd r))
                             (filter (\<lambda>r. snd r > 0)
                                (map (\<lambda>n. (n, termScore queryTerms n)) allNodes)))
           in Inr (map fst scored)))"

text \<open>
  \<open>deleteMemoryNode\<close> removes the id from the index, then deletes from both stores in one
  transaction over \<open>pages\<close> and \<open>embeddings\<close>: the transaction completes with both
  deletions done, or errors with neither.
\<close>

definition deleteMemoryNode :: "idb_outcome \<Rightarrow> CortexStorage \<Rightarrow> string \<Rightarrow> (js_error + unit) \<times> CortexStorage" where
  "deleteMemoryNode out st i =
     (if \<not> opened st then (Inl StoreUnavailable, st)
      else let st1 = st\<lparr> annIndex := ANN_remove (annIndex st) i \<rparr>
           in case out of
                Errors \<Rightarrow> (Inl (RequestFailed ''Failed to delete memory node''), st1)
              | Completes \<Rightarrow>
                  (Inr (), st1\<lparr> pages := AList.delete i (pages st1),
                                embeddings := AList.delete i (embeddings st1) \<rparr>))"

text \<open>
  \<open>storeEmbedding\<close> adds to the index, then puts the record.
\<close>

definition storeEmbedding :: "idb_outcome \<Rightarrow> CortexStorage \<Rightarrow> string \<Rightarrow> Embedding \<Rightarrow> (js_error + unit) \<times> CortexStorage" where
  "storeEmbedding out st nid e =
     (if \<not> opened st then (Inl StoreUnavailable, st)
      else let st1 = st\<lparr> annIndex := ANN_add (annIndex st) nid (vector e) \<rparr>
           in case out of
                Errors \<Rightarrow> (Inl (RequestFailed ''Failed to store embedding''), st1)
              | Completes \<Rightarrow>
                  (Inr (), st1\<lparr> embeddings :=
                     AList.update nid
                       \<lparr> row_nodeId = nid, row_vector = vector e, row_model = model e,
                         row_timestamp = emb_timestamp e \<rparr>
                       (embeddings st1) \<rparr>))"

definition getEmbedding :: "idb_outcome \<Rightarrow> CortexStorage \<Rightarrow> string \<Rightarrow> js_error + Embedding option" where
  "getEmbedding out st nid =
     (if \<not> opened st then Inl StoreUnavailable
      else case out of
        Errors \<Rightarrow> Inl (RequestFailed ''Failed to get embedding'')
      | Completes \<Rightarrow>
          Inr (case map_of (embeddings st) nid of
                 None \<Rightarrow> None
               | Some r \<Rightarrow> Some \<lparr> vector = row_vector r, model = row_model r,
                                  emb_timestamp = row_timestamp r \<rparr>))"

text \<open>
  \<open>Promise.all\<close> over \<open>getMemoryNode\<close> for each candidate: the first rejection rejects the whole.
\<close>

fun fetchNodes :: "idb_outcome \<Rightarrow> CortexStorage \<Rightarrow> string list \<Rightarrow> js_error + MemoryNode option list" where
  "fetchNodes out st [] = Inr []"
| "fetchNodes out st (i # rest) =
     (case getMemoryNode out st i of
        Inl e \<Rightarrow> Inl e
      | Inr n \<Rightarrow> (case fetchNodes out st rest of Inl e \<Rightarrow> Inl e | Inr ns \<Rightarrow> Inr (n # ns)))"

text \<open>
  The \<open>map\<close> with index over the candidates and the \<open>filter\<close> that drops the ids without a page.
\<close>

fun attachNodes :: "(string \<times> real) list \<Rightarrow> MemoryNode option list \<Rightarrow> SemanticMatch list" where
  "attachNodes ((nid, sim) # cs) (n # ns) =
     (case n of
        None \<Rightarrow> attachNodes cs ns
      | Some nd \<Rightarrow>
          \<lparr> nodeId = nid, similarity = sim, node = nd,
            reason = \<lparr> sharedKeywords = [], contextMatch = [], semanticSimilarity = sim \<rparr> \<rparr>
          # attachNodes cs ns)"
| "attachNodes _ _ = []"

definition vectorSearch :: "idb_outcome \<Rightarrow> CortexStorage \<Rightarrow> real list \<Rightarrow> nat \<Rightarrow> real \<Rightarrow> js_error + SemanticMatch list" where
  "vectorSearch out st queryVector limit threshold =
     (if \<not> opened st then Inl StoreUnavailable
      else case ANN_search (annIndex st) queryVector (limit * 2) threshold of
        Inl e \<Rightarrow> Inl e
      | Inr candidateMatches \<Rightarrow>
          (case fetchNodes out st (map fst candidateMatches) of
             Inl e \<Rightarrow> Inl e
           | Inr nodes \<Rightarrow>
               Inr (take limit (sortDescending similarity (attachNodes candidateMatches nodes)))))"

subsection \<open>Example pages and stores\<close>

text \<open>
  Two captured pages, a store holding them, and an embedding.
\<close>

definition olderPage :: MemoryNode where
  "olderPage = \<lparr> node_id = ''page_a'', url = ''https://example.com/hooks'',
       title = ''React Hooks Guide'', readableText = ''Hooks let you use state'',
       timestamp = 1000, node_keywords = [''react'', ''hooks''],
       metadata = \<lparr> domain = ''example.com'' \<rparr> \<rparr>"

definition newerPage :: MemoryNode where
  "newerPage = \<lparr> node_id = ''page_b'', url = ''https://other.com/pasta'',
       title = ''Cooking Pasta'', readableText = ''Boil water first'',
       timestamp = 2000, node_keywords = [''pasta''],
       metadata = \<lparr> domain = ''other.com'' \<rparr> \<rparr>"

definition exampleEmbedding :: Embedding where
  "exampleEmbedding = \<lparr> vector = constVector 1, model = ''fallback'', emb_timestamp = 1000 \<rparr>"

definition exampleStore :: CortexStorage where
  "exampleStore = \<lparr> opened = True,
       pages = [(''page_a'', olderPage), (''page_b'', newerPage)],
       embeddings = [],
       annIndex = ANN_new onesMatrix \<rparr>"

subsection \<open>calculateHybridScore\<close>

text \<open>
  \<open>queryLower.split(/\s+/).filter(w => w.length > 2)\<close>.
\<close>

definition queryWordsOf :: "string \<Rightarrow> string list" where
  "queryWordsOf queryLower = filter (\<lambda>w. length w > 2) (splitWhitespace queryLower)"

definition calculateHybridScore :: "real \<Rightarrow> MemoryNode \<Rightarrow> string \<Rightarrow> real" where
  "calculateHybridScore semSim n queryText =
     (let queryLower = toLowerCase queryText;
          titleLower = toLowerCase (title n);
          domainLower = toLowerCase (domain (metadata n));
          queryWords = queryWordsOf queryLower;
          score = semSim;
          score = (if titleLower = queryLower then min 1 (score + 0.4)
                   else if includesStr titleLower queryLower then min 1 (score + 0.25)
                   else if list_all (\<lambda>word. includesStr titleLower word) queryWords
                     then min 1 (score + 0.2)
                   else if list_ex (\<lambda>word. includesStr titleLower word) queryWords
                     then min 1 (score + 0.1)
                   else score);
          score = (if includesStr domainLower queryLower then min 1 (score + 0.15)
                   else if list_ex (\<lambda>word. includesStr domainLower word) queryWords
                     then min 1 (score + 0.08)
                   else score)
      in score)"

text \<open>
  The value of \<open>score\<close> after the title tests, and after the domain tests applied to a
  score \<open>x\<close>.
\<close>

definition titleStage :: "real \<Rightarrow> MemoryNode \<Rightarrow> string \<Rightarrow> real" where
  "titleStage s n queryText =
     (let queryLower = toLowerCase queryText;
          titleLower = toLowerCase (title n);
          queryWords = queryWordsOf queryLower
      in if titleLower = queryLower then min 1 (s + 0.4)
         else if includesStr titleLower queryLower then min 1 (s + 0.25)
         else if list_all (\<lambda>word. includesStr titleLower word) queryWords then min 1 (s + 0.2)
         else if list_ex (\<lambda>word. includesStr titleLower word) queryWords then min 1 (s + 0.1)
         else s)"

definition domainStage :: "real \<Rightarrow> MemoryNode \<Rightarrow> string \<Rightarrow> real" where
  "domainStage x n queryText =
     (let queryLower = toLowerCase queryText;
          domainLower = toLowerCase (domain (metadata n));
          queryWords = queryWordsOf queryLower
      in if includesStr domainLower queryLower then min 1 (x + 0.15)
         else if list_ex (\<lambda>word. includesStr domainLower word) queryWords then min 1 (x + 0.08)
         else x)"

text \<open>
  The specification's bonuses, read as the claim states them: the query words are the
  words of the lowercased query, separated by white space. The single highest-priority
  title case applies, and independently one domain case; the score is their sum with
  the similarity, clamped to 1.
\<close>

definition claimedQueryWords :: "string \<Rightarrow> string list" where
  "claimedQueryWords queryText = filter (\<lambda>w. w \<noteq> []) (splitWhitespace (toLowerCase queryText))"

definition claimedTitleBonus :: "MemoryNode \<Rightarrow> string \<Rightarrow> real" where
  "claimedTitleBonus n queryText =
     (let q = toLowerCase queryText; t = toLowerCase (title n); ws = claimedQueryWords queryText
      in if t = q then 0.4
         else if includesStr t q then 0.25
         else if list_all (includesStr t) ws then 0.2
         else if list_ex (includesStr t) ws then 0.1
         else 0)"

definition claimedDomainBonus :: "MemoryNode \<Rightarrow> string \<Rightarrow> real" where
  "claimedDomainBonus n queryText =
     (let q = toLowerCase queryText; d = toLowerCase (domain (metadata n));
          ws = claimedQueryWords queryText
      in if includesStr d q then 0.15
         else if list_ex (includesStr d) ws then 0.08
         else 0)"

definition claimedHybridScore :: "real \<Rightarrow> MemoryNode \<Rightarrow> string \<Rightarrow> real" where
  "claimedHybridScore s n queryText =
     min 1 (s + claimedTitleBonus n queryText + claimedDomainBonus n queryText)"

text \<open>
  The bonuses with the query words that the function uses, the words longer than two
  characters. That every query word is present is said of a query that has such words.
\<close>

definition titleBonus :: "MemoryNode \<Rightarrow> string \<Rightarrow> real" where
  "titleBonus n queryText =
     (let q = toLowerCase queryText; t = toLowerCase (title n); ws = queryWordsOf q
      in if t = q then 0.4
         else if includesStr t q then 0.25
         else if ws \<noteq> [] \<and> list_all (includesStr t) ws then 0.2
         else if list_ex (includesStr t) ws then 0.1
         else 0)"

definition domainBonus :: "MemoryNode \<Rightarrow> string \<Rightarrow> real" where
  "domainBonus n queryText =
     (let q = toLowerCase queryText; d = toLowerCase (domain (metadata n)); ws = queryWordsOf q
      in if includesStr d q then 0.15
         else if list_ex (includesStr d) ws then 0.08
         else 0)"

text \<open>
  The three kinds of title that the monotonicity property compares. A title has no
  overlap with the query when it neither equals nor contains it and contains none of
  its words.
\<close>

definition titleEqualsQuery :: "MemoryNode \<Rightarrow> string \<Rightarrow> bool" where
  "titleEqualsQuery n queryText = (toLowerCase (title n) = toLowerCase queryText)"

definition titleContainsQuery :: "MemoryNode \<Rightarrow> string \<Rightarrow> bool" where
  "titleContainsQuery n queryText =
     (toLowerCase (title n) \<noteq> toLowerCase queryText
      \<and> includesStr (toLowerCase (title n)) (toLowerCase queryText))"

definition noTitleOverlap :: "MemoryNode \<Rightarrow> string \<Rightarrow> bool" where
  "noTitleOverlap n queryText =
     (toLowerCase (title n) \<noteq> toLowerCase queryText
      \<and> \<not> includesStr (toLowerCase (title n)) (toLowerCase queryText)
      \<and> \<not> list_ex (\<lambda>w. w \<noteq> [] \<and> includesStr (toLowerCase (title n)) w)
            (splitWhitespace (toLowerCase queryText)))"

text \<open>
  Two more example pages, on the domain of \<open>newerPage\<close>: one titled as the query \<open>react\<close>,
  one containing it.
\<close>

definition exactPage :: MemoryNode where
  "exactPage = \<lparr> node_id = ''page_c'', url = ''https://other.com/react'',
       title = ''React'', readableText = ''A library'',
       timestamp = 3000, node_keywords = [''react''],
       metadata = \<lparr> domain = ''other.com'' \<rparr> \<rparr>"

definition containsPage :: MemoryNode where
  "containsPage = \<lparr> node_id = ''page_d'', url = ''https://other.com/hooks'',
       title = ''React Hooks Guide'', readableText = ''Hooks let you use state'',
       timestamp = 4000, node_keywords = [''react'', ''hooks''],
       metadata = \<lparr> domain = ''other.com'' \<rparr> \<rparr>"

text \<open>
  Two pages for the two-letter query \<open>ab\<close>: the title of the first contains the query,
  the title of the second shares nothing with it, and its domain contains it.
\<close>

definition abTitlePage :: MemoryNode where
  "abTitlePage = \<lparr> node_id = ''page_e'', url = ''https://x.org/ab'',
       title = ''ab cd'', readableText = ''Letters'',
       timestamp = 5000, node_keywords = [],
       metadata = \<lparr> domain = ''x.org'' \<rparr> \<rparr>"

definition abDomainPage :: MemoryNode where
  "abDomainPage = \<lparr> node_id = ''page_f'', url = ''https://ab.com/'',
       title = ''xyz'', readableText = ''Other letters'',
       timestamp = 6000, node_keywords = [],
       metadata = \<lparr> domain = ''ab.com'' \<rparr> \<rparr>"

section \<open>Recall service (services/recall.ts)\<close>

text \<open>
  The explanation attached to a match: shared keywords and the context label.
\<close>

definition findSharedKeywords :: "string \<Rightarrow> MemoryNode \<Rightarrow> string list" where
  "findSharedKeywords queryText n =
     (let queryWords = filter (\<lambda>w. length w > 3) (splitWhitespace (toLowerCase queryText))
      in filter (\<lambda>kw. toLowerCase kw \<in> set queryWords) (node_keywords n))"

definition generateContextMatch :: "string \<Rightarrow> MemoryNode \<Rightarrow> string" where
  "generateContextMatch queryText n =
     (let queryLower = toLowerCase queryText;
          titleLower = toLowerCase (title n);
          textLower = take 500 (toLowerCase (readableText n));
          domainLower = toLowerCase (domain (metadata n))
      in if titleLower = queryLower then ''Exact title match''
         else if includesStr titleLower queryLower then ''Title contains query terms''
         else if includesStr domainLower queryLower then ''Domain contains query terms''
         else if includesStr textLower queryLower then ''Content contains query terms''
         else if list_ex (\<lambda>kw. includesStr queryLower (toLowerCase kw)) (node_keywords n)
           then ''Shared keywords match''
         else ''Semantic similarity match'')"

definition createSemanticMatch :: "MemoryNode \<Rightarrow> real \<Rightarrow> string \<Rightarrow> SemanticMatch" where
  "createSemanticMatch n sim queryText =
     \<lparr> nodeId = node_id n, similarity = sim, node = n,
       reason = \<lparr> sharedKeywords = findSharedKeywords queryText n,
                  contextMatch = generateContextMatch queryText n,
                  semanticSimilarity = sim \<rparr> \<rparr>"

text \<open>
  The result of a search, and the object the \<open>catch\<close> block returns.
\<close>

record RecallResult =
  matches :: "SemanticMatch list"
  query :: string
  result_timestamp :: int
  totalResults :: nat

definition emptyRecall :: "string \<Rightarrow> int \<Rightarrow> RecallResult" where
  "emptyRecall queryText now =
     \<lparr> matches = [], query = queryText, result_timestamp = now, totalResults = 0 \<rparr>"

text \<open>
  One step of the merge by node id: a match replaces the one kept for its id when its
  similarity is strictly higher.
\<close>

definition mergeMatch :: "SemanticMatch \<Rightarrow> (string \<times> SemanticMatch) list \<Rightarrow> (string \<times> SemanticMatch) list" where
  "mergeMatch m uniqueMatches =
     (case map_of uniqueMatches (nodeId m) of
        None \<Rightarrow> AList.update (nodeId m) m uniqueMatches
      | Some existing \<Rightarrow>
          if similarity m > similarity existing then AList.update (nodeId m) m uniqueMatches
          else uniqueMatches)"

text \<open>
  \<open>RecallService.search\<close>. The whole body is inside \<open>try\<close>: an exception of
  \<open>generateEmbedding\<close>, of \<open>vectorSearch\<close> or of \<open>searchMemoryNodes\<close> leaves through the
  \<open>catch\<close> block. \<open>generateEmbedding\<close> (utils/embedding.ts) is an argument, as are the
  outcomes of the storage requests of the two searches and the clock \<open>Date.now()\<close>.
\<close>

definition RecallService_search ::
  "(string \<Rightarrow> string \<Rightarrow> string list \<Rightarrow> js_error + Embedding) \<Rightarrow> idb_outcome \<Rightarrow> idb_outcome \<Rightarrow>
   CortexStorage \<Rightarrow> string \<Rightarrow> nat \<Rightarrow> real \<Rightarrow> int \<Rightarrow> RecallResult" where
  "RecallService_search generateEmbedding outVector outKeyword st queryText limit threshold now =
     (case generateEmbedding queryText queryText [] of
        Inl e \<Rightarrow> emptyRecall queryText now
      | Inr queryEmbedding \<Rightarrow>
          (case vectorSearch outVector st (vector queryEmbedding) (limit * 2) threshold of
             Inl e \<Rightarrow> emptyRecall queryText now
           | Inr semanticMatches \<Rightarrow>
               (let boostedMatches =
                      map (\<lambda>m. m\<lparr> similarity := calculateHybridScore (similarity m) (node m) queryText \<rparr>)
                        semanticMatches
                in case searchMemoryNodes outKeyword st queryText limit of
                     Inl e \<Rightarrow> emptyRecall queryText now
                   | Inr keywordNodes \<Rightarrow>
                       (let keywordMatches =
                              map (\<lambda>n. createSemanticMatch n (calculateHybridScore 0.5 n queryText) queryText)
                                keywordNodes;
                            uniqueMatches = fold mergeMatch (boostedMatches @ keywordMatches) [];
                            finalMatches = take limit (sortDescending similarity (map snd uniqueMatches))
                        in \<lparr> matches = finalMatches, query = queryText, result_timestamp = now,
                             totalResults = length finalMatches \<rparr>))))"

text \<open>
  A store whose database failed to open, an embedding function that returns and one
  that throws.
\<close>

definition closedStore :: CortexStorage where
  "closedStore = exampleStore\<lparr> opened := False \<rparr>"

definition steadyEmbedding :: "string \<Rightarrow> string \<Rightarrow> string list \<Rightarrow> js_error + Embedding" where
  "steadyEmbedding text ttl kws = Inr exampleEmbedding"

definition failingEmbedding :: "string \<Rightarrow> string \<Rightarrow> string list \<Rightarrow> js_error + Embedding" where
  "failingEmbedding text ttl kws = Inl EmbeddingFailed"

section \<open>Analytics service (services/analytics.ts)\<close>


































subsection \<open>A page captured twice, then deleted\<close>

text \<open>
  A draw of the projection matrix with every entry 0.5, two embeddings of one page on
  opposite sides of every hyperplane, and the store after the page was captured, its
  embedding stored, stored again after a second capture, and the page deleted.
\<close>

definition halfMatrix :: "nat \<Rightarrow> nat \<Rightarrow> real" where
  "halfMatrix i j = 1 / 2"

definition firstEmbedding :: Embedding where
  "firstEmbedding = \<lparr> vector = constVector (- 1), model = ''fallback'', emb_timestamp = 1000 \<rparr>"

definition secondEmbedding :: Embedding where
  "secondEmbedding = \<lparr> vector = constVector 1, model = ''fallback'', emb_timestamp = 1500 \<rparr>"

definition capturedStore :: CortexStorage where
  "capturedStore = \<lparr> opened = True, pages = [(''page_a'', olderPage)], embeddings = [],
       annIndex = ANN_new halfMatrix \<rparr>"

definition recapturedStore :: CortexStorage where
  "recapturedStore =
     snd (storeEmbedding Completes
            (snd (storeEmbedding Completes capturedStore ''page_a'' firstEmbedding))
            ''page_a'' secondEmbedding)"

definition afterDelete :: CortexStorage where
  "afterDelete = snd (deleteMemoryNode Completes recapturedStore ''page_a'')"

section \<open>Properties of cosineSimilarity in exact arithmetic\<close>

text \<open>
  With exact arithmetic the function is 0 on vectors of different lengths and on a
  vector of norm 0, lies between -1 and 1 (Cauchy-Schwarz), and is 1 on a vector of
  nonzero norm with itself.
\<close>

lemma cosineLoop_sums:
  "length a = length b \<Longrightarrow>
   cosineLoop a b (d, x, y) = (d + dotProductOf a b, x + squaredNorm a, y + squaredNorm b)"
  by (induction a b arbitrary: d x y rule: list_induct2)
     (simp_all add: dotProductOf_def squaredNorm_def)

lemma squaredNorm_nonneg: "0 \<le> squaredNorm a"
  unfolding squaredNorm_def by (induction a) simp_all

lemma dotProductOf_self: "dotProductOf a a = squaredNorm a"
  unfolding dotProductOf_def squaredNorm_def by (induction a) simp_all

lemma cross_term_bound:
  fixes d a b A B :: real
  assumes "d\<^sup>2 \<le> A * B" "0 \<le> A" "0 \<le> B"
  shows "2 * d * (a * b) \<le> A * b\<^sup>2 + a\<^sup>2 * B"
proof (rule power2_le_imp_le)
  let ?u = "A * b\<^sup>2" and ?v = "a\<^sup>2 * B"
  show "0 \<le> ?u + ?v" using assms by simp
  have "(2 * d * (a * b))\<^sup>2 = 4 * (d\<^sup>2 * (a\<^sup>2 * b\<^sup>2))"
    by (simp add: power2_eq_square)
  also have "\<dots> \<le> 4 * ((A * B) * (a\<^sup>2 * b\<^sup>2))"
    using assms(1) by (simp add: mult_right_mono)
  also have "\<dots> = 4 * (?u * ?v)" by simp
  also have "\<dots> \<le> (?u + ?v)\<^sup>2"
  proof -
    have "0 \<le> (?u - ?v)\<^sup>2" by simp
    then show ?thesis by (simp add: power2_eq_square algebra_simps)
  qed
  finally show "(2 * d * (a * b))\<^sup>2 \<le> (?u + ?v)\<^sup>2" .
qed

lemma dot_squared_le_norms:
  "length a = length b \<Longrightarrow> (dotProductOf a b)\<^sup>2 \<le> squaredNorm a * squaredNorm b"
proof (induction a b rule: list_induct2)
  case Nil
  then show ?case by (simp add: dotProductOf_def squaredNorm_def)
next
  case (Cons x xs y ys)
  have A: "0 \<le> squaredNorm xs" and B: "0 \<le> squaredNorm ys"
    by (rule squaredNorm_nonneg)+
  have m: "2 * dotProductOf xs ys * (x * y) \<le> squaredNorm xs * y\<^sup>2 + x\<^sup>2 * squaredNorm ys"
    by (rule cross_term_bound [OF Cons.IH A B])
  have e1: "dotProductOf (x # xs) (y # ys) = x * y + dotProductOf xs ys"
    by (simp add: dotProductOf_def)
  have e2: "squaredNorm (x # xs) = x\<^sup>2 + squaredNorm xs"
    by (simp add: squaredNorm_def power2_eq_square)
  have e3: "squaredNorm (y # ys) = y\<^sup>2 + squaredNorm ys"
    by (simp add: squaredNorm_def power2_eq_square)
  show ?case unfolding e1 e2 e3 using m Cons.IH
    by (simp add: power2_eq_square algebra_simps)
qed

lemma cosineSimilarity_mismatch: "length a \<noteq> length b \<Longrightarrow> cosineSimilarity a b = 0"
  by (simp add: cosineSimilarity_def)

lemma cosineSimilarity_zero_norm:
  "squaredNorm a = 0 \<or> squaredNorm b = 0 \<Longrightarrow> cosineSimilarity a b = 0"
  by (cases "length a = length b") (auto simp: cosineSimilarity_def cosineLoop_sums)

lemma cosineSimilarity_abs_le_1: "\<bar>cosineSimilarity a b\<bar> \<le> 1"
proof (cases "length a = length b \<and> squaredNorm a \<noteq> 0 \<and> squaredNorm b \<noteq> 0")
  case False
  then have "cosineSimilarity a b = 0"
    using cosineSimilarity_mismatch cosineSimilarity_zero_norm by blast
  then show ?thesis by simp
next
  case True
  then have len: "length a = length b" by simp
  from True have pa: "0 < squaredNorm a" and pb: "0 < squaredNorm b"
    using squaredNorm_nonneg [of a] squaredNorm_nonneg [of b] by auto
  have "\<bar>dotProductOf a b\<bar> \<le> sqrt (squaredNorm a * squaredNorm b)"
    using real_sqrt_le_mono [OF dot_squared_le_norms [OF len]] by simp
  then have le: "\<bar>dotProductOf a b\<bar> \<le> sqrt (squaredNorm a) * sqrt (squaredNorm b)"
    by (simp add: real_sqrt_mult)
  have pos: "0 < sqrt (squaredNorm a) * sqrt (squaredNorm b)" using pa pb by simp
  have "cosineSimilarity a b = dotProductOf a b / (sqrt (squaredNorm a) * sqrt (squaredNorm b))"
    using True by (simp add: cosineSimilarity_def cosineLoop_sums)
  moreover have "\<bar>dotProductOf a b / (sqrt (squaredNorm a) * sqrt (squaredNorm b))\<bar> \<le> 1"
  proof -
    have "\<bar>dotProductOf a b / (sqrt (squaredNorm a) * sqrt (squaredNorm b))\<bar>
          = \<bar>dotProductOf a b\<bar> / (sqrt (squaredNorm a) * sqrt (squaredNorm b))"
      using pos by (simp only: abs_divide abs_of_pos)
    also have "\<dots> \<le> 1" using le pos by (simp only: divide_le_eq_1_pos)
    finally show ?thesis .
  qed
  ultimately show ?thesis by simp
qed

lemma cosineSimilarity_self: "squaredNorm a \<noteq> 0 \<Longrightarrow> cosineSimilarity a a = 1"
  using squaredNorm_nonneg [of a]
  by (simp add: cosineSimilarity_def cosineLoop_sums dotProductOf_self)

section \<open>Properties of ANNIndex\<close>

lemma bucketsRecorded_imp_indexed: "bucketsRecorded idx \<Longrightarrow> bucketsIndexed idx"
  unfolding bucketsRecorded_def bucketsIndexed_def by (metis domI subsetI)

lemma indexedIds_add [simp]: "indexedIds (ANN_add idx nid v) = insert nid (indexedIds idx)"
  by (simp add: indexedIds_def ANN_add_def Let_def dom_update [unfolded dom_map_of_conv_image_fst])

lemma indexedIds_remove [simp]: "indexedIds (ANN_remove idx nid) = indexedIds idx - {nid}"
  by (auto simp: indexedIds_def ANN_remove_def Let_def AList.delete_eq)

lemma indexedIds_clear [simp]: "indexedIds (ANN_clear idx) = {}"
  by (simp add: indexedIds_def ANN_clear_def)

lemma bucketsRecorded_new: "bucketsRecorded (ANN_new pm)"
  by (simp add: bucketsRecorded_def ANN_new_def indexedIds_def)

lemma bucketsRecorded_clear: "bucketsRecorded (ANN_clear idx)"
  by (simp add: bucketsRecorded_def ANN_clear_def indexedIds_def)

lemma bucketsRecorded_add:
  assumes "bucketsRecorded idx" "nid \<notin> indexedIds idx"
  shows "bucketsRecorded (ANN_add idx nid v)"
proof -
  from assms have nohash: "hashes idx nid = None"
    unfolding bucketsRecorded_def by auto
  have d: "dom (hashes (ANN_add idx nid v)) = indexedIds (ANN_add idx nid v)"
    using assms(1) unfolding bucketsRecorded_def
    by (simp add: ANN_add_def Let_def del: indexedIds_add) (simp add: indexedIds_def dom_update [unfolded dom_map_of_conv_image_fst])
  show ?thesis
    unfolding bucketsRecorded_def
  proof (intro conjI allI impI)
    fix h b i
    assume a: "buckets (ANN_add idx nid v) h = Some b \<and> i \<in> set b"
    show "hashes (ANN_add idx nid v) i = Some h"
      using a assms(1) nohash unfolding bucketsRecorded_def
      by (auto simp: ANN_add_def Let_def split: if_splits option.splits)
  qed (rule d)
qed

lemma bucketsRecorded_remove:
  assumes "bucketsRecorded idx"
  shows "bucketsRecorded (ANN_remove idx nid)"
  unfolding bucketsRecorded_def
proof (intro conjI allI impI)
  fix h b i
  assume a: "buckets (ANN_remove idx nid) h = Some b \<and> i \<in> set b"
  show "hashes (ANN_remove idx nid) i = Some h"
    using a assms unfolding bucketsRecorded_def
    by (auto simp: ANN_remove_def Let_def split: if_splits option.splits)
next
  show "dom (hashes (ANN_remove idx nid)) = indexedIds (ANN_remove idx nid)"
    using assms unfolding bucketsRecorded_def
    by (auto simp: ANN_remove_def Let_def indexedIds_def AList.delete_eq)
qed


lemma projectionMatrix_applyOp [simp]: "projectionMatrix (applyOp idx op) = projectionMatrix idx"
  by (cases op) (simp_all add: ANN_add_def ANN_remove_def ANN_clear_def Let_def)

lemma runOps_Nil [simp]: "runOps idx [] = idx"
  by (simp add: runOps_def)

lemma runOps_Cons [simp]: "runOps idx (op # ops) = runOps (applyOp idx op) ops"
  by (simp add: runOps_def)

lemma bucketsRecorded_runOps:
  "bucketsRecorded idx \<Longrightarrow> distinct (addedIds ops) \<Longrightarrow>
   set (addedIds ops) \<inter> indexedIds idx = {} \<Longrightarrow> bucketsRecorded (runOps idx ops)"
proof (induction ops arbitrary: idx)
  case Nil
  then show ?case by simp
next
  case (Cons op ops)
  show ?case
  proof (cases op)
    case (Add nid v)
    with Cons.prems have "bucketsRecorded (ANN_add idx nid v)"
      by (intro bucketsRecorded_add) auto
    moreover from Add Cons.prems have "set (addedIds ops) \<inter> indexedIds (ANN_add idx nid v) = {}"
      by auto
    ultimately show ?thesis using Add Cons.prems Cons.IH by simp
  next
    case (Remove nid)
    with Cons.prems have "set (addedIds ops) \<inter> indexedIds (ANN_remove idx nid) = {}"
      by auto
    then show ?thesis using Remove Cons.prems Cons.IH bucketsRecorded_remove by simp
  next
    case Clear
    then show ?thesis using Cons.prems Cons.IH bucketsRecorded_clear by simp
  qed
qed

lemma set_setAdd [simp]: "set (setAdd x xs) = insert x (set xs)"
  by (auto simp: setAdd_def)

lemma set_fold_setAdd [simp]: "set (fold setAdd b c) = set b \<union> set c"
  by (induction b arbitrary: c) auto

lemma set_addBucket:
  "set (addBucket bs h c) = (case bs h of None \<Rightarrow> {} | Some b \<Rightarrow> set b) \<union> set c"
  by (simp add: addBucket_def split: option.splits)

lemma set_fold_addBucket:
  "set (fold (addBucket bs) hs c) = (\<Union>h \<in> set hs. case bs h of None \<Rightarrow> {} | Some b \<Rightarrow> set b) \<union> set c"
  by (induction hs arbitrary: c) (auto simp: set_addBucket)

lemma set_bucketCandidates:
  "set (bucketCandidates bs qh) = (\<Union>h \<in> set (searchHashes qh). case bs h of None \<Rightarrow> {} | Some b \<Rightarrow> set b)"
  by (simp add: bucketCandidates_def set_fold_addBucket)

lemma distinct_setAdd: "distinct xs \<Longrightarrow> distinct (setAdd x xs)"
  by (simp add: setAdd_def)

lemma distinct_fold_setAdd: "distinct c \<Longrightarrow> distinct (fold setAdd b c)"
  by (induction b arbitrary: c) (simp_all add: distinct_setAdd)

lemma set_fallback_subset: "set (fallback ks c) \<subseteq> set c \<union> set ks"
  by (induction ks c rule: fallback.induct) (auto simp: Let_def)

lemma set_fallback_superset: "set c \<subseteq> set (fallback ks c)"
  by (induction ks c rule: fallback.induct) (auto simp: Let_def)

lemma set_searchCandidates_subset:
  "bucketsIndexed idx \<Longrightarrow> set (searchCandidates idx q k) \<subseteq> indexedIds idx"
proof -
  assume inv: "bucketsIndexed idx"
  have b: "set (bucketCandidates (buckets idx) h) \<subseteq> indexedIds idx" for h
    using inv unfolding bucketsIndexed_def set_bucketCandidates
    by (fastforce split: option.splits)
  let ?c = "bucketCandidates (buckets idx) (computeHash (projectionMatrix idx) q)"
  have "set (fallback (map fst (vectors idx)) ?c) \<subseteq> set ?c \<union> indexedIds idx"
    using set_fallback_subset [of "map fst (vectors idx)" ?c] by (simp add: indexedIds_def)
  with b [of "computeHash (projectionMatrix idx) q"]
  have "set (fallback (map fst (vectors idx)) ?c) \<subseteq> indexedIds idx" by blast
  with b show ?thesis by (simp add: searchCandidates_def Let_def)
qed

lemma scoreCandidates_Inr:
  "set cs \<subseteq> fst ` set vs \<Longrightarrow>
   scoreCandidates vs q t cs =
     Inr (filter (\<lambda>r. snd r \<ge> t) (map (\<lambda>i. (i, cosineSimilarity q (the (map_of vs i)))) cs))"
proof (induction cs)
  case Nil
  then show ?case by simp
next
  case (Cons c cs)
  then obtain v where "map_of vs c = Some v"
    by (metis list.set_intros(1) subsetD map_of_eq_None_iff not_Some_eq)
  with Cons show ?case by simp
qed

lemma scoreCandidates_ids:
  "scoreCandidates vs q t cs = Inr res \<Longrightarrow> fst ` set res \<subseteq> set cs \<inter> fst ` set vs"
proof (induction cs arbitrary: res)
  case Nil
  then show ?case by simp
next
  case (Cons c cs)
  from Cons.prems obtain v where v: "map_of vs c = Some v"
    by (cases "map_of vs c") simp_all
  from Cons.prems v obtain rs where rs: "scoreCandidates vs q t cs = Inr rs"
    by (cases "scoreCandidates vs q t cs") simp_all
  have c: "c \<in> fst ` set vs" using v by (metis map_of_eq_None_iff option.distinct(1))
  from Cons.prems v rs have "set res \<subseteq> insert (c, cosineSimilarity q v) (set rs)"
    by (auto split: if_splits)
  then have "fst ` set res \<subseteq> insert c (fst ` set rs)" by auto
  moreover from Cons.IH [OF rs] have "fst ` set rs \<subseteq> set cs" "fst ` set rs \<subseteq> fst ` set vs"
    by simp_all
  ultimately show ?case using c by (simp add: subset_iff) blast
qed

lemma computeHash_short: "length v < dim \<Longrightarrow> computeHash pm v = 0"
proof -
  assume "length v < dim"
  then have "hashStep pm v i h = h" for i h
    by (simp add: hashStep_def rowDot_def)
  then have "fold (hashStep pm v) xs h = h" for xs h
    by (induction xs arbitrary: h) simp_all
  then show ?thesis by (simp add: computeHash_def)
qed

lemma rowDot_const: "rowDot onesMatrix (constVector c) i = Some (real dim * c)"
proof -
  have "map (\<lambda>j. constVector c ! j * onesMatrix i j) [0..<dim] = map (\<lambda>j. c) [0..<dim]"
    by (rule map_cong) (simp_all add: constVector_def onesMatrix_def)
  then show ?thesis
    by (simp add: rowDot_def constVector_def map_replicate_const sum_list_replicate)
qed

lemma computeHash_negative: "c \<le> 0 \<Longrightarrow> computeHash onesMatrix (constVector c) = 0"
proof -
  assume c: "c \<le> 0"
  have "real dim * c \<le> 0" using c by (simp add: mult_le_0_iff)
  then have "hashStep onesMatrix (constVector c) i h = h" for i h
    by (simp add: hashStep_def rowDot_const)
  then have "fold (hashStep onesMatrix (constVector c)) xs h = h" for xs h
    by (induction xs arbitrary: h) simp_all
  then show ?thesis by (simp add: computeHash_def)
qed

lemma computeHash_positive: "0 < c \<Longrightarrow> computeHash onesMatrix (constVector c) = 65535"
proof -
  assume c: "0 < c"
  have "0 < real dim * c" using c by (simp add: dim_def)
  then have "hashStep onesMatrix (constVector c) = (\<lambda>i h. h OR push_bit i 1)"
    by (intro ext) (simp add: hashStep_def rowDot_const)
  moreover have "fold (\<lambda>i h. h OR push_bit i 1) [0..<16] (0::int) = 65535"
    by code_simp
  ultimately show ?thesis by (simp add: computeHash_def numHashes_def)
qed

lemma ANN_search_wellformed:
  assumes "bucketsIndexed idx"
  shows "ANN_search idx q k t =
     Inr (take k (sortDescending snd
            (filter (\<lambda>r. snd r \<ge> t)
               (map (\<lambda>i. (i, cosineSimilarity q (the (map_of (vectors idx) i))))
                    (searchCandidates idx q k)))))"
  using set_searchCandidates_subset [OF assms, of q k]
  by (simp add: ANN_search_def scoreCandidates_Inr indexedIds_def)

lemma ANN_search_ids:
  "ANN_search idx q k t = Inr res \<Longrightarrow> fst ` set res \<subseteq> indexedIds idx"
proof -
  assume a: "ANN_search idx q k t = Inr res"
  then obtain rs where rs: "scoreCandidates (vectors idx) q t (searchCandidates idx q k) = Inr rs"
    and res: "res = take k (sortDescending snd rs)"
    by (auto simp: ANN_search_def split: sum.splits)
  have "set res \<subseteq> set rs" unfolding res sortDescending_def
    using set_take_subset [of k "sort_key (\<lambda>x. - snd x) rs"] by simp
  then have "fst ` set res \<subseteq> fst ` set rs" by (rule image_mono)
  also have "\<dots> \<subseteq> fst ` set (vectors idx)"
    using scoreCandidates_ids [OF rs] by simp
  finally show ?thesis by (simp add: indexedIds_def)
qed

lemma indexedIds_new [simp]: "indexedIds (ANN_new pm) = {}"
  by (simp add: indexedIds_def ANN_new_def)

lemma indexedIds_runOps_no_add:
  "nid \<notin> indexedIds idx \<Longrightarrow> nid \<notin> set (addedIds ops) \<Longrightarrow> nid \<notin> indexedIds (runOps idx ops)"
proof (induction ops arbitrary: idx)
  case Nil
  then show ?case by simp
next
  case (Cons op ops)
  then show ?case by (cases op) auto
qed

text \<open>
  Claim C10. In an index built from a fresh one by \<open>add\<close>, \<open>remove\<close> and \<open>clear\<close> with no
  id added twice, every id in a bucket has a vector, so \<open>search\<close> never meets a missing
  vector and returns a result. Adding an id again with a vector of another hash and
  then removing it breaks this: the first bucket keeps the id, the vector is gone.
\<close>

theorem C10_buckets_have_vectors:
  "(distinct (addedIds ops) \<longrightarrow>
      bucketsIndexed (runOps (ANN_new pm) ops)
      \<and> (\<forall>q k t. \<exists>res. ANN_search (runOps (ANN_new pm) ops) q k t = Inr res))
   \<and> (computeHash pm v \<noteq> computeHash pm w \<longrightarrow>
      \<not> bucketsIndexed (runOps (ANN_new pm) [Add nid v, Add nid w, Remove nid]))"
proof (intro conjI impI)
  assume d: "distinct (addedIds ops)"
  have "bucketsRecorded (runOps (ANN_new pm) ops)"
    by (rule bucketsRecorded_runOps [OF bucketsRecorded_new d]) simp
  then show inv: "bucketsIndexed (runOps (ANN_new pm) ops)"
    by (rule bucketsRecorded_imp_indexed)
  show "\<forall>q k t. \<exists>res. ANN_search (runOps (ANN_new pm) ops) q k t = Inr res"
    using ANN_search_wellformed [OF inv] by blast
next
  assume h: "computeHash pm v \<noteq> computeHash pm w"
  let ?idx = "runOps (ANN_new pm) [Add nid v, Add nid w, Remove nid]"
  have "buckets ?idx (computeHash pm v) = Some [nid]"
    using h by (simp add: ANN_new_def ANN_add_def ANN_remove_def Let_def)
  moreover have "indexedIds ?idx = {}"
    by simp
  ultimately show "\<not> bucketsIndexed ?idx"
    unfolding bucketsIndexed_def by fastforce
qed

theorem C10_buckets_have_vectors_witness:
  "distinct (addedIds historyExample)
   \<and> bucketsIndexed (runOps (ANN_new onesMatrix) historyExample)
   \<and> (\<exists>res. ANN_search (runOps (ANN_new onesMatrix) historyExample) [] 1 0 = Inr res)
   \<and> computeHash onesMatrix (constVector (- 1)) \<noteq> computeHash onesMatrix (constVector 1)
   \<and> \<not> bucketsIndexed (runOps (ANN_new onesMatrix)
          [Add ''a'' (constVector (- 1)), Add ''a'' (constVector 1), Remove ''a''])"
  using C10_buckets_have_vectors [of historyExample onesMatrix "constVector (- 1)" "constVector 1" "''a''"]
  by (simp add: historyExample_def computeHash_negative computeHash_positive)

lemma search_after_stale_history:
  "ANN_search (runOps (ANN_new onesMatrix) staleHistory) (constVector (- 1)) 1 0 = Inl TypeError"
proof -
  let ?idx = "runOps (ANN_new onesMatrix) staleHistory"
  have b: "buckets ?idx = [0 \<mapsto> [''a''], 65535 \<mapsto> []]"
    by (simp add: staleHistory_def ANN_new_def ANN_add_def ANN_remove_def Let_def
        computeHash_negative computeHash_positive)
  have v: "vectors ?idx = []"
    by (simp add: staleHistory_def ANN_new_def ANN_add_def ANN_remove_def Let_def AList.delete_eq)
  have p: "projectionMatrix ?idx = onesMatrix"
    by (simp add: staleHistory_def ANN_new_def ANN_add_def ANN_remove_def Let_def)
  have c: "bucketCandidates (buckets ?idx) 0 = [''a'']"
    unfolding b by code_simp
  have "searchCandidates ?idx (constVector (- 1)) 1 = [''a'']"
    by (simp add: searchCandidates_def p computeHash_negative c del: runOps_Cons)
  then show ?thesis
    by (simp add: ANN_search_def v del: runOps_Cons)
qed

lemma fallback_take:
  "distinct (c @ ks) \<Longrightarrow> length c \<le> 100 \<Longrightarrow> fallback ks c = c @ take (101 - length c) ks"
proof (induction ks arbitrary: c)
  case Nil
  then show ?case by simp
next
  case (Cons k ks)
  then have add: "setAdd k c = c @ [k]" by (simp add: setAdd_def)
  show ?case
  proof (cases "length c = 100")
    case True
    then show ?thesis by (simp add: add)
  next
    case False
    with Cons.prems have lt: "length c < 100" by simp
    then have "fallback (k # ks) c = fallback ks (c @ [k])" by (simp add: add)
    also have "\<dots> = (c @ [k]) @ take (101 - length (c @ [k])) ks"
      using Cons.prems lt by (intro Cons.IH) auto
    also have "\<dots> = c @ take (101 - length c) (k # ks)"
      using lt by (simp add: take_Cons')
    finally show ?thesis .
  qed
qed

lemma keys_after_adds:
  "distinct (map fst (vectors idx) @ ids) \<Longrightarrow>
   map fst (vectors (runOps idx (map (\<lambda>i. Add i v) ids))) = map fst (vectors idx) @ ids"
proof (induction ids arbitrary: idx)
  case Nil
  then show ?case by simp
next
  case (Cons i ids)
  have k: "map fst (vectors (ANN_add idx i v)) = map fst (vectors idx) @ [i]"
    using Cons.prems by (simp add: ANN_add_def Let_def update_keys)
  have "distinct (map fst (vectors (ANN_add idx i v)) @ ids)"
    unfolding k using Cons.prems by auto
  from Cons.IH [OF this] show ?case by (simp add: k)
qed

lemma buckets_after_adds:
  "h \<noteq> computeHash (projectionMatrix idx) v \<Longrightarrow>
   buckets (runOps idx (map (\<lambda>i. Add i v) ids)) h = buckets idx h"
proof (induction ids arbitrary: idx)
  case Nil
  then show ?case by simp
next
  case (Cons i ids)
  have p: "projectionMatrix (ANN_add idx i v) = projectionMatrix idx"
    by (simp add: ANN_add_def Let_def)
  have "buckets (ANN_add idx i v) h = buckets idx h"
    using Cons.prems by (simp add: ANN_add_def Let_def)
  with Cons.IH [of "ANN_add idx i v"] Cons.prems p show ?case by simp
qed

lemma distinct_manyIds: "distinct (manyIds n)"
  unfolding manyIds_def
proof (subst distinct_map, intro conjI)
  show "distinct [0..<n]" by simp
  show "inj_on (\<lambda>j. ''page_'' @ replicate j CHR ''x'') (set [0..<n])"
  proof (rule inj_onI)
    fix a b assume "''page_'' @ replicate a CHR ''x'' = ''page_'' @ replicate b CHR ''x''"
    then have "length (replicate a CHR ''x'') = length (replicate b CHR ''x'')"
      by (simp only: same_append_eq)
    then show "a = b" by simp
  qed
qed

lemma bucketCandidates_empty:
  "\<forall>h \<in> set (searchHashes qh). bs h = None \<Longrightarrow> bucketCandidates bs qh = []"
proof -
  assume a: "\<forall>h \<in> set (searchHashes qh). bs h = None"
  have "set hs \<subseteq> set (searchHashes qh) \<Longrightarrow> fold (addBucket bs) hs c = c" for hs c
    using a by (induction hs arbitrary: c) (auto simp: addBucket_def)
  then show ?thesis by (simp add: bucketCandidates_def)
qed

lemma zero_not_probed: "0 \<notin> set (searchHashes 65535)"
  by code_simp

lemma crowded_keys: "map fst (vectors crowdedIndex) = manyIds 150"
  unfolding crowdedIndex_def
  using keys_after_adds [of "ANN_new onesMatrix" "manyIds 150"] distinct_manyIds
  by (simp add: ANN_new_def)

lemma crowded_buckets: "h \<noteq> 0 \<Longrightarrow> buckets crowdedIndex h = None"
  unfolding crowdedIndex_def
  using buckets_after_adds [of h "ANN_new onesMatrix" "constVector (- 1)" "manyIds 150"]
  by (simp add: ANN_new_def computeHash_negative)

lemma crowded_pm: "projectionMatrix crowdedIndex = onesMatrix"
proof -
  have "projectionMatrix (runOps idx ops) = projectionMatrix idx" for idx ops
    by (induction ops arbitrary: idx) simp_all
  then show ?thesis by (simp add: crowdedIndex_def ANN_new_def)
qed

lemma crowded_no_bucket_candidates:
  "bucketCandidates (buckets crowdedIndex) (computeHash onesMatrix (constVector 1)) = []"
proof -
  have "\<forall>h \<in> set (searchHashes 65535). buckets crowdedIndex h = None"
    using zero_not_probed crowded_buckets by metis
  then show ?thesis by (simp add: computeHash_positive bucketCandidates_empty)
qed

lemma crowded_candidates:
  "searchCandidates crowdedIndex (constVector 1) 1 = take 101 (manyIds 150)"
  using fallback_take [of "[]" "manyIds 150"] distinct_manyIds
  by (simp add: searchCandidates_def crowded_pm crowded_no_bucket_candidates crowded_keys)

text \<open>The hashes probed: the query's own, and each of its 16 one-bit flips.\<close>

lemma set_searchHashes:
  "set (searchHashes qh) = insert qh ((\<lambda>i. qh XOR push_bit i 1) ` {0..<numHashes})"
  by (simp add: searchHashes_def)

lemma flip_one_bit: "bit (qh XOR push_bit i (1::int)) j \<longleftrightarrow> (bit qh j \<noteq> (j = i))"
  by (auto simp: bit_xor_iff bit_exp_iff)

text \<open>
  Claim C1, evaluated where the code leaves it. On the index of \<open>staleHistory\<close> a query
  that lands in the first bucket of the removed id finds the id as a candidate and no
  vector for it: the call ends in a TypeError instead of returning the candidates at or
  above the threshold. On \<open>crowdedIndex\<close> no probed bucket holds a candidate, \<open>k = 1\<close>
  asks for the fallback, and the fallback adds 101 ids: the loop stops once the set
  holds more than 100 elements, not once 100 have been added.
\<close>

theorem C1_search_misses_claim:
  "ANN_search (runOps (ANN_new onesMatrix) staleHistory) (constVector (- 1)) 1 0 = Inl TypeError
   \<and> bucketCandidates (buckets crowdedIndex) (computeHash onesMatrix (constVector 1)) = []
   \<and> length (searchCandidates crowdedIndex (constVector 1) 1) = 101"
proof (intro conjI)
  show "ANN_search (runOps (ANN_new onesMatrix) staleHistory) (constVector (- 1)) 1 0 = Inl TypeError"
    by (rule search_after_stale_history)
  show "bucketCandidates (buckets crowdedIndex) (computeHash onesMatrix (constVector 1)) = []"
    by (rule crowded_no_bucket_candidates)
  show "length (searchCandidates crowdedIndex (constVector 1) 1) = 101"
    unfolding crowded_candidates by (simp add: manyIds_def)
qed

section \<open>Properties of the storage layer\<close>

lemma set_sortDescending [simp]: "set (sortDescending key xs) = set xs"
  by (simp add: sortDescending_def)

lemma attachNodes_ids: "nodeId ` set (attachNodes cs ns) \<subseteq> fst ` set cs"
  by (induction cs ns rule: attachNodes.induct) (auto split: option.splits)

lemma vectorSearch_ids:
  assumes "vectorSearch out st q lmt t = Inr ms"
  shows "nodeId ` set ms \<subseteq> indexedIds (annIndex st)"
proof -
  from assms obtain cm ns where cm: "ANN_search (annIndex st) q (lmt * 2) t = Inr cm"
    and ms: "ms = take lmt (sortDescending similarity (attachNodes cm ns))"
    by (auto simp: vectorSearch_def split: if_splits sum.splits)
  have "set ms \<subseteq> set (attachNodes cm ns)"
    unfolding ms using set_take_subset [of lmt "sortDescending similarity (attachNodes cm ns)"] by simp
  then have "nodeId ` set ms \<subseteq> nodeId ` set (attachNodes cm ns)" by (rule image_mono)
  also have "\<dots> \<subseteq> fst ` set cm" by (rule attachNodes_ids)
  also have "\<dots> \<subseteq> indexedIds (annIndex st)" by (rule ANN_search_ids [OF cm])
  finally show ?thesis .
qed

text \<open>
  What a completed \<open>deleteMemoryNode\<close> does in every state: the page and the embedding
  are gone, the id has no vector, and no search returns it. When the call does not
  complete, both stores are as they were: the two deletions sit in one transaction.
\<close>

lemma deleteMemoryNode_effect:
  assumes "deleteMemoryNode out st i = (r, st')"
  shows "(r = Inr () \<longrightarrow>
            map_of (pages st') i = None \<and> map_of (embeddings st') i = None
            \<and> i \<notin> indexedIds (annIndex st')
            \<and> (\<forall>ops q k t res. i \<notin> set (addedIds ops) \<longrightarrow>
                  ANN_search (runOps (annIndex st') ops) q k t = Inr res \<longrightarrow> i \<notin> fst ` set res)
            \<and> (\<forall>out' q lmt t ms. vectorSearch out' st' q lmt t = Inr ms \<longrightarrow> i \<notin> nodeId ` set ms))
         \<and> (r \<noteq> Inr () \<longrightarrow> pages st' = pages st \<and> embeddings st' = embeddings st)"
proof (intro conjI impI)
  assume ok: "r = Inr ()"
  with assms have op: "opened st" and out: "out = Completes"
    by (auto simp: deleteMemoryNode_def Let_def split: if_splits idb_outcome.splits)
  from assms op out have st': "st' = st\<lparr> annIndex := ANN_remove (annIndex st) i,
      pages := AList.delete i (pages st), embeddings := AList.delete i (embeddings st) \<rparr>"
    by (simp add: deleteMemoryNode_def Let_def)
  show "map_of (pages st') i = None" by (simp add: st' delete_conv')
  show "map_of (embeddings st') i = None" by (simp add: st' delete_conv')
  show gone: "i \<notin> indexedIds (annIndex st')" by (simp add: st')
  show "\<forall>ops q k t res. i \<notin> set (addedIds ops) \<longrightarrow>
          ANN_search (runOps (annIndex st') ops) q k t = Inr res \<longrightarrow> i \<notin> fst ` set res"
    using indexedIds_runOps_no_add [OF gone] ANN_search_ids by blast
  show "\<forall>out' q lmt t ms. vectorSearch out' st' q lmt t = Inr ms \<longrightarrow> i \<notin> nodeId ` set ms"
    using gone vectorSearch_ids by blast
next
  assume "r \<noteq> Inr ()"
  with assms show "pages st' = pages st" and "embeddings st' = embeddings st"
    by (auto simp: deleteMemoryNode_def Let_def split: if_splits idb_outcome.splits)
qed

text \<open>
  Claim C7. After \<open>storeEmbedding nid e\<close> has completed, \<open>getEmbedding nid\<close> returns \<open>e\<close>:
  the same vector, model tag and timestamp.
\<close>

theorem C7_embedding_round_trip:
  assumes "storeEmbedding out st nid e = (Inr (), st')"
  shows "getEmbedding Completes st' nid = Inr (Some e)"
proof -
  from assms have op: "opened st" and out: "out = Completes"
    by (auto simp: storeEmbedding_def Let_def split: if_splits idb_outcome.splits)
  from assms op out have st': "st' = st\<lparr> annIndex := ANN_add (annIndex st) nid (vector e),
      embeddings := AList.update nid
         \<lparr> row_nodeId = nid, row_vector = vector e, row_model = model e,
           row_timestamp = emb_timestamp e \<rparr> (embeddings st) \<rparr>"
    by (simp add: storeEmbedding_def Let_def)
  show ?thesis using op by (simp add: st' getEmbedding_def update_conv')
qed

theorem C7_embedding_round_trip_witness:
  "fst (storeEmbedding Completes exampleStore ''page_a'' exampleEmbedding) = Inr ()
   \<and> getEmbedding Completes (snd (storeEmbedding Completes exampleStore ''page_a'' exampleEmbedding)) ''page_a''
       = Inr (Some exampleEmbedding)"
proof -
  have r: "fst (storeEmbedding Completes exampleStore ''page_a'' exampleEmbedding) = Inr ()"
    by (simp add: storeEmbedding_def exampleStore_def Let_def)
  then have "storeEmbedding Completes exampleStore ''page_a'' exampleEmbedding
      = (Inr (), snd (storeEmbedding Completes exampleStore ''page_a'' exampleEmbedding))"
    by (metis prod.collapse)
  from C7_embedding_round_trip [OF this] r show ?thesis by simp
qed

lemma rowDot_half: "rowDot halfMatrix (constVector c) i = Some (real dim * (c / 2))"
proof -
  have "map (\<lambda>j. constVector c ! j * halfMatrix i j) [0..<dim] = map (\<lambda>j. c / 2) [0..<dim]"
    by (rule map_cong) (simp_all add: constVector_def halfMatrix_def)
  then show ?thesis
    by (simp add: rowDot_def constVector_def map_replicate_const sum_list_replicate)
qed

lemma computeHash_half_negative: "c \<le> 0 \<Longrightarrow> computeHash halfMatrix (constVector c) = 0"
proof -
  assume c: "c \<le> 0"
  have "real dim * (c / 2) \<le> 0" using c by (simp add: mult_le_0_iff)
  then have "hashStep halfMatrix (constVector c) i h = h" for i h
    by (simp add: hashStep_def rowDot_half)
  then have "fold (hashStep halfMatrix (constVector c)) xs h = h" for xs h
    by (induction xs arbitrary: h) simp_all
  then show ?thesis by (simp add: computeHash_def)
qed

lemma computeHash_half_positive: "0 < c \<Longrightarrow> computeHash halfMatrix (constVector c) = 65535"
proof -
  assume c: "0 < c"
  have "0 < real dim * (c / 2)" using c by (simp add: dim_def)
  then have "hashStep halfMatrix (constVector c) = (\<lambda>i h. h OR push_bit i 1)"
    by (intro ext) (simp add: hashStep_def rowDot_half)
  moreover have "fold (\<lambda>i h. h OR push_bit i 1) [0..<16] (0::int) = 65535"
    by code_simp
  ultimately show ?thesis by (simp add: computeHash_def numHashes_def)
qed

lemma ANN_remove_evicts:
  assumes "bucketsRecorded idx" "buckets (ANN_remove idx i) h = Some b"
  shows "i \<notin> set b"
  using assms unfolding bucketsRecorded_def
  by (auto simp: ANN_remove_def Let_def split: if_splits option.splits)

lemma recaptured_state:
  "opened recapturedStore
   \<and> annIndex recapturedStore
       = ANN_add (ANN_add (ANN_new halfMatrix) ''page_a'' (constVector (- 1))) ''page_a'' (constVector 1)"
  by (simp add: recapturedStore_def storeEmbedding_def capturedStore_def Let_def
      firstEmbedding_def secondEmbedding_def)

lemma afterDelete_index:
  "buckets (annIndex afterDelete) = [0 \<mapsto> [''page_a''], 65535 \<mapsto> []]
   \<and> vectors (annIndex afterDelete) = []
   \<and> projectionMatrix (annIndex afterDelete) = halfMatrix
   \<and> opened afterDelete"
  using recaptured_state
  by (simp add: afterDelete_def deleteMemoryNode_def Let_def ANN_new_def ANN_add_def ANN_remove_def
      computeHash_half_negative computeHash_half_positive AList.delete_eq)

lemma afterDelete_candidates:
  "searchCandidates (annIndex afterDelete) (constVector (- 1)) k = [''page_a'']"
proof -
  have c: "bucketCandidates [0 \<mapsto> [''page_a''], 65535 \<mapsto> []] 0 = [''page_a'']"
    by code_simp
  have v: "vectors (annIndex afterDelete) = []" by (simp add: afterDelete_index)
  show ?thesis
    by (simp add: searchCandidates_def afterDelete_index computeHash_half_negative c Let_def v)
qed

text \<open>
  In a state where every bucketed id is in the bucket that the hash map records, a
  completed deletion evicts the id from every bucket, and every later search returns
  a result without it.
\<close>

lemma deleteMemoryNode_evicts:
  assumes "deleteMemoryNode out st i = (Inr (), st')" and "bucketsRecorded (annIndex st)"
  shows "(\<forall>h b. buckets (annIndex st') h = Some b \<longrightarrow> i \<notin> set b)
         \<and> i \<notin> indexedIds (annIndex st')
         \<and> (\<forall>q k t. \<exists>res. ANN_search (annIndex st') q k t = Inr res \<and> i \<notin> fst ` set res)"
proof -
  from assms(1) have idx: "annIndex st' = ANN_remove (annIndex st) i"
    by (auto simp: deleteMemoryNode_def Let_def split: if_splits idb_outcome.splits)
  have rec: "bucketsRecorded (annIndex st')"
    unfolding idx using assms(2) by (rule bucketsRecorded_remove)
  have gone: "i \<notin> indexedIds (annIndex st')" by (simp add: idx)
  have "\<exists>res. ANN_search (annIndex st') q k t = Inr res \<and> i \<notin> fst ` set res" for q k t
  proof -
    obtain res where r: "ANN_search (annIndex st') q k t = Inr res"
      using ANN_search_wellformed [OF bucketsRecorded_imp_indexed [OF rec]] by blast
    with ANN_search_ids [OF r] gone show ?thesis by blast
  qed
  then show ?thesis
    using ANN_remove_evicts [OF assms(2)] gone unfolding idx by blast
qed

text \<open>
  Claim C3, evaluated where the code leaves it. The page \<open>page_a\<close> had its embedding
  stored twice, with vectors of different hash codes, and was then deleted. The
  deletion completes and removes the page and the embedding, but \<open>ANNIndex.remove\<close>
  cleans only the bucket of the latest hash: the id stays in bucket 0 of the index,
  without a vector. A search that probes this bucket does not return: it ends in a
  TypeError, in \<open>ANNIndex.search\<close> and in \<open>vectorSearch\<close>.
\<close>

theorem C3_delete_leaves_bucket_entry:
  "fst (deleteMemoryNode Completes recapturedStore ''page_a'') = Inr ()
   \<and> map_of (pages afterDelete) ''page_a'' = None
   \<and> map_of (embeddings afterDelete) ''page_a'' = None
   \<and> buckets (annIndex afterDelete) 0 = Some [''page_a'']
   \<and> ANN_search (annIndex afterDelete) (constVector (- 1)) 1 0 = Inl TypeError
   \<and> vectorSearch Completes afterDelete (constVector (- 1)) 1 0 = Inl TypeError"
proof (intro conjI)
  show "fst (deleteMemoryNode Completes recapturedStore ''page_a'') = Inr ()"
    using recaptured_state by (simp add: deleteMemoryNode_def Let_def)
  show "map_of (pages afterDelete) ''page_a'' = None"
    using recaptured_state by (simp add: afterDelete_def deleteMemoryNode_def Let_def delete_conv')
  show "map_of (embeddings afterDelete) ''page_a'' = None"
    using recaptured_state by (simp add: afterDelete_def deleteMemoryNode_def Let_def delete_conv')
  show "buckets (annIndex afterDelete) 0 = Some [''page_a'']"
    by (simp add: afterDelete_index)
  show s: "ANN_search (annIndex afterDelete) (constVector (- 1)) 1 0 = Inl TypeError"
    by (simp add: ANN_search_def afterDelete_candidates afterDelete_index)
  have "ANN_search (annIndex afterDelete) (constVector (- 1)) (1 * 2) 0 = Inl TypeError"
    by (simp add: ANN_search_def afterDelete_candidates afterDelete_index)
  then show "vectorSearch Completes afterDelete (constVector (- 1)) 1 0 = Inl TypeError"
    by (simp add: vectorSearch_def afterDelete_index)
qed

lemma timestampIndex_example: "timestampIndex (pages exampleStore) = [olderPage, newerPage]"
  by (simp add: timestampIndex_def exampleStore_def olderPage_def newerPage_def)

text \<open>
  Claim C6, evaluated where the code leaves it. With the two example pages stored,
  \<open>getAllMemoryNodes()\<close> without a limit returns the older page first: \<open>index.getAll()\<close>
  follows the ascending order of the index, while the branch with a limit walks the
  index backwards. A limit of 0 is falsy and takes the same branch, returning both
  pages. With limits 1 and 2 the newest page comes first, as the claim says.
\<close>

theorem C6_unlimited_listing_ascends:
  "getAllMemoryNodes Completes exampleStore None = Inr [olderPage, newerPage]
   \<and> getAllMemoryNodes Completes exampleStore (Some 0) = Inr [olderPage, newerPage]
   \<and> getAllMemoryNodes Completes exampleStore (Some 1) = Inr [newerPage]
   \<and> getAllMemoryNodes Completes exampleStore (Some 2) = Inr [newerPage, olderPage]
   \<and> timestamp olderPage < timestamp newerPage"
proof -
  have o: "opened exampleStore" by (simp add: exampleStore_def)
  show ?thesis
    using o by (simp add: getAllMemoryNodes_def timestampIndex_example)
      (simp add: olderPage_def newerPage_def)
qed

lemma sorted_timestampIndex: "sorted (map timestamp (timestampIndex ps))"
proof -
  have "sorted (map (\<lambda>n. (timestamp n, node_id n)) (timestampIndex ps))"
    unfolding timestampIndex_def by (rule sorted_sort_key)
  then have "sorted_wrt (\<lambda>a b. (timestamp a, node_id a) \<le> (timestamp b, node_id b)) (timestampIndex ps)"
    by (simp add: sorted_map)
  then have "sorted_wrt (\<lambda>a b. timestamp a \<le> timestamp b) (timestampIndex ps)"
    by (rule sorted_wrt_mono_rel [rotated]) (auto simp: less_eq_prod_def)
  then show ?thesis by (simp add: sorted_map)
qed

lemma getAllMemoryNodes_limited:
  assumes "0 < l" "getAllMemoryNodes out st (Some l) = Inr ns"
  shows "length ns \<le> l \<and> sorted (rev (map timestamp ns))
         \<and> ns = take l (rev (timestampIndex (pages st)))"
proof -
  from assms have ns: "ns = take l (rev (timestampIndex (pages st)))"
    by (auto simp: getAllMemoryNodes_def split: if_splits idb_outcome.splits)
  have "rev (map timestamp ns) = drop (length (timestampIndex (pages st)) - l) (map timestamp (timestampIndex (pages st)))"
    unfolding ns by (simp add: rev_take rev_map drop_map)
  moreover have "sorted (drop k (map timestamp (timestampIndex (pages st))))" for k
    using sorted_timestampIndex by (rule sorted_wrt_drop)
  ultimately show ?thesis using ns by simp
qed

lemma getAllMemoryNodes_unlimited:
  "getAllMemoryNodes out st None = Inr ns \<Longrightarrow>
   ns = timestampIndex (pages st) \<and> sorted (map timestamp ns) \<and> set ns = snd ` set (pages st)"
proof -
  assume a: "getAllMemoryNodes out st None = Inr ns"
  then have ns: "ns = timestampIndex (pages st)"
    by (auto simp: getAllMemoryNodes_def split: if_splits idb_outcome.splits)
  have "set (timestampIndex (pages st)) = snd ` set (pages st)"
    by (simp add: timestampIndex_def)
  then show ?thesis using ns sorted_timestampIndex by simp
qed

section \<open>Properties of calculateHybridScore\<close>

lemma calculateHybridScore_stages:
  "calculateHybridScore s n q = domainStage (titleStage s n q) n q"
  by (simp add: calculateHybridScore_def titleStage_def domainStage_def Let_def)

lemma titleBonus_range: "titleBonus n q \<in> {0, 0.1, 0.2, 0.25, 0.4}"
  by (simp add: titleBonus_def Let_def)

lemma domainBonus_range: "domainBonus n q \<in> {0, 0.08, 0.15}"
  by (simp add: domainBonus_def Let_def)

lemma titleStage_bonus:
  "queryWordsOf (toLowerCase q) \<noteq> [] \<Longrightarrow>
   titleStage s n q = (if titleBonus n q = 0 then s else min 1 (s + titleBonus n q))"
  by (simp add: titleStage_def titleBonus_def Let_def)

lemma domainStage_bonus:
  "domainStage x n q = (if domainBonus n q = 0 then x else min 1 (x + domainBonus n q))"
  by (simp add: domainStage_def domainBonus_def Let_def)

lemma domainStage_mono: "x \<le> y \<Longrightarrow> domainStage x n q \<le> domainStage y n q"
  by (simp add: domainStage_bonus min_def)

lemma domainStage_ge: "x \<le> 1 \<Longrightarrow> x \<le> domainStage x n q"
  using domainBonus_range [of n q] by (auto simp: domainStage_bonus)

lemma domainStage_le: "x \<le> 1 \<Longrightarrow> domainStage x n q \<le> min 1 (x + 0.15)"
  using domainBonus_range [of n q] by (auto simp: domainStage_bonus)

lemma hybrid_score_clamped_sum:
  assumes "s \<le> 1" and "queryWordsOf (toLowerCase q) \<noteq> []"
  shows "calculateHybridScore s n q = min 1 (s + titleBonus n q + domainBonus n q)"
proof -
  have t: "titleBonus n q \<in> {0, 0.1, 0.2, 0.25, 0.4}" by (rule titleBonus_range)
  have d: "domainBonus n q \<in> {0, 0.08, 0.15}" by (rule domainBonus_range)
  show ?thesis
    unfolding calculateHybridScore_stages titleStage_bonus [OF assms(2)] domainStage_bonus
    using t d assms(1) by (auto simp: min_def)
qed

text \<open>
  Claim C2, amended. For a query with at least one word longer than two characters and
  a similarity \<open>s\<close> of at most 1, the hybrid score is \<open>s\<close> plus the one title bonus and
  the one domain bonus, clamped to at most 1, where the query words are the words of
  the lowercased query that are longer than two characters.
\<close>

theorem C2_hybrid_score_clamped_sum:
  assumes "s \<le> 1" and "queryWordsOf (toLowerCase q) \<noteq> []"
  shows "calculateHybridScore s n q = min 1 (s + titleBonus n q + domainBonus n q)"
  using assms by (rule hybrid_score_clamped_sum)

theorem C2_hybrid_score_clamped_sum_witness:
  "(0.5 :: real) \<le> 1 \<and> queryWordsOf (toLowerCase ''go react'') \<noteq> []
   \<and> titleBonus containsPage ''go react'' = 0.2 \<and> domainBonus containsPage ''go react'' = 0
   \<and> calculateHybridScore 0.5 containsPage ''go react'' = 0.7"
proof -
  have w: "queryWordsOf (toLowerCase ''go react'') \<noteq> []" by code_simp
  have b: "titleBonus containsPage ''go react'' = 0.2" "domainBonus containsPage ''go react'' = 0"
    by code_simp+
  have s: "(0.5 :: real) \<le> 1" by simp
  show ?thesis
    using C2_hybrid_score_clamped_sum [OF s w, of containsPage] w b by simp
qed

text \<open>
  The claim as stated fails on the query \<open>go react\<close> and a page titled
  \<open>React Hooks Guide\<close>: the title holds \<open>react\<close> but not \<open>go\<close>, so only some of the
  query words are present and the claim adds 0.1; the function drops \<open>go\<close> from the
  query words and adds 0.2.
\<close>

theorem C2_short_word_counterexample:
  "calculateHybridScore 0.5 containsPage ''go react'' = 0.7
   \<and> claimedHybridScore 0.5 containsPage ''go react'' = 0.6"
  by code_simp

text \<open>
  The order of the three kinds of title. An exact title is never below a title that
  contains the query. A title that contains the query is not below a title without
  overlap when the similarity is at most 1 and the query has a word longer than two
  characters.
\<close>

lemma title_match_order:
  assumes "titleEqualsQuery nA q" "titleContainsQuery nB q" "noTitleOverlap nC q"
  shows "calculateHybridScore s nB q \<le> calculateHybridScore s nA q
         \<and> (s \<le> 1 \<and> queryWordsOf (toLowerCase q) \<noteq> []
              \<longrightarrow> calculateHybridScore s nC q \<le> calculateHybridScore s nB q)"
proof
  have a: "titleStage s nA q = min 1 (s + 0.4)"
    using assms(1) by (simp add: titleStage_def titleEqualsQuery_def Let_def)
  have b: "titleStage s nB q = min 1 (s + 0.25)"
    using assms(2) by (simp add: titleStage_def titleContainsQuery_def Let_def)
  have "calculateHybridScore s nB q \<le> min 1 (min 1 (s + 0.25) + 0.15)"
    unfolding calculateHybridScore_stages b by (rule domainStage_le) simp
  also have "\<dots> = min 1 (s + 0.4)" by (simp add: min_def)
  also have "\<dots> \<le> calculateHybridScore s nA q"
    unfolding calculateHybridScore_stages a by (rule domainStage_ge) simp
  finally show "calculateHybridScore s nB q \<le> calculateHybridScore s nA q" .
  show "s \<le> 1 \<and> queryWordsOf (toLowerCase q) \<noteq> []
          \<longrightarrow> calculateHybridScore s nC q \<le> calculateHybridScore s nB q"
  proof
    assume h: "s \<le> 1 \<and> queryWordsOf (toLowerCase q) \<noteq> []"
    have none: "\<not> list_ex (includesStr (toLowerCase (title nC))) (queryWordsOf (toLowerCase q))"
      using assms(3) by (auto simp: noTitleOverlap_def queryWordsOf_def list_ex_iff)
    then have "\<not> list_all (includesStr (toLowerCase (title nC))) (queryWordsOf (toLowerCase q))"
      using h by (cases "queryWordsOf (toLowerCase q)") (auto simp: list_ex_iff list_all_iff)
    with none assms(3) have c: "titleStage s nC q = s"
      by (simp add: titleStage_def noTitleOverlap_def Let_def)
    have "calculateHybridScore s nC q \<le> min 1 (s + 0.15)"
      unfolding calculateHybridScore_stages c using h by (intro domainStage_le) simp
    also have "\<dots> \<le> min 1 (s + 0.25)" by (simp add: min_def)
    also have "\<dots> \<le> calculateHybridScore s nB q"
      unfolding calculateHybridScore_stages b by (rule domainStage_ge) simp
    finally show "calculateHybridScore s nC q \<le> calculateHybridScore s nB q" .
  qed
qed

text \<open>
  Claim C9, evaluated where the code leaves it. For the query \<open>ab\<close> no query word is
  longer than two characters, and \<open>every\<close> on the empty list of words holds: the page
  whose title shares nothing with the query receives the bonus 0.2 for all words
  present, and 0.15 for its domain. At similarity 0.5 it scores 0.85, above the 0.75
  of the page whose title contains the query.
\<close>

theorem C9_short_query_breaks_order:
  "titleContainsQuery abTitlePage ''ab'' \<and> noTitleOverlap abDomainPage ''ab''
   \<and> queryWordsOf (toLowerCase ''ab'') = []
   \<and> calculateHybridScore 0.5 abTitlePage ''ab'' = 0.75
   \<and> calculateHybridScore 0.5 abDomainPage ''ab'' = 0.85"
  by code_simp

section \<open>Properties of the recall service\<close>

text \<open>
  Claim C5. When embedding generation, the vector search or the keyword scan throws,
  \<open>RecallService.search\<close> still returns, with no matches and a total of 0.
\<close>

theorem C5_search_absorbs_failures:
  fixes gen outV outK st q limit threshold now
  defines "R \<equiv> RecallService_search gen outV outK st q limit threshold now"
  shows "(\<forall>e. gen q q [] = Inl e \<longrightarrow> matches R = [] \<and> totalResults R = 0)
    \<and> (\<forall>emb e. gen q q [] = Inr emb \<longrightarrow> vectorSearch outV st (vector emb) (limit * 2) threshold = Inl e
          \<longrightarrow> matches R = [] \<and> totalResults R = 0)
    \<and> (\<forall>emb e. gen q q [] = Inr emb \<longrightarrow> searchMemoryNodes outK st q limit = Inl e
          \<longrightarrow> matches R = [] \<and> totalResults R = 0)"
  unfolding R_def
  by (auto simp: RecallService_search_def emptyRecall_def Let_def split: sum.splits)

theorem C5_search_absorbs_failures_witness:
  "failingEmbedding ''react'' ''react'' [] = Inl EmbeddingFailed
   \<and> matches (RecallService_search failingEmbedding Completes Completes exampleStore ''react'' 10 0.3 5000) = []
   \<and> totalResults (RecallService_search failingEmbedding Completes Completes exampleStore ''react'' 10 0.3 5000) = 0
   \<and> steadyEmbedding ''react'' ''react'' [] = Inr exampleEmbedding
   \<and> vectorSearch Completes closedStore (vector exampleEmbedding) (10 * 2) 0.3 = Inl StoreUnavailable
   \<and> matches (RecallService_search steadyEmbedding Completes Completes closedStore ''react'' 10 0.3 5000) = []
   \<and> totalResults (RecallService_search steadyEmbedding Completes Completes closedStore ''react'' 10 0.3 5000) = 0
   \<and> searchMemoryNodes Errors exampleStore ''react'' 10 = Inl (RequestFailed ''Failed to get memory nodes'')
   \<and> matches (RecallService_search steadyEmbedding Completes Errors exampleStore ''react'' 10 0.3 5000) = []
   \<and> totalResults (RecallService_search steadyEmbedding Completes Errors exampleStore ''react'' 10 0.3 5000) = 0"
proof -
  have g1: "failingEmbedding ''react'' ''react'' [] = Inl EmbeddingFailed"
    by (simp add: failingEmbedding_def)
  have g2: "steadyEmbedding ''react'' ''react'' [] = Inr exampleEmbedding"
    by (simp add: steadyEmbedding_def)
  have v: "vectorSearch Completes closedStore (vector exampleEmbedding) (10 * 2) 0.3 = Inl StoreUnavailable"
    by (simp add: vectorSearch_def closedStore_def)
  have k: "searchMemoryNodes Errors exampleStore ''react'' 10 = Inl (RequestFailed ''Failed to get memory nodes'')"
    by (simp add: searchMemoryNodes_def getAllMemoryNodes_def exampleStore_def)
  show ?thesis
    using C5_search_absorbs_failures [of failingEmbedding "''react''" Completes Completes exampleStore 10 "0.3" 5000]
      C5_search_absorbs_failures [of steadyEmbedding "''react''" Completes Completes closedStore 10 "0.3" 5000]
      C5_search_absorbs_failures [of steadyEmbedding "''react''" Completes Errors exampleStore 10 "0.3" 5000]
      g1 g2 v k
    by simp
qed

section \<open>Properties of the analytics service\<close>








































section \<open>The string functions\<close>

lemma lowerChar_letters:
  "map lowerChar ''ABCDEFGHIJKLMNOPQRSTUVWXYZ'' = ''abcdefghijklmnopqrstuvwxyz''"
  by simp

lemma lowerChar_other:
  assumes "c \<notin> set ''ABCDEFGHIJKLMNOPQRSTUVWXYZ''"
  shows "lowerChar c = c"
proof (cases c)
  case (Char b0 b1 b2 b3 b4 b5 b6 b7)
  with assms show ?thesis
    by (cases b0; cases b1; cases b2; cases b3; cases b4; cases b5; cases b6; cases b7; simp)
qed

lemma toLowerCase_example: "toLowerCase ''React Hooks @[`{AZ'' = ''react hooks @[`{az''"
  by code_simp

lemma splitWhitespace_example:
  "splitWhitespace '' a  bc d '' = ['''', ''a'', ''bc'', ''d'', '''']
   \<and> splitWhitespace '''' = ['''']"
  by code_simp

lemma includesStr_example:
  "includesStr ''react hooks guide'' ''hooks'' \<and> includesStr ''abc'' ''''
   \<and> \<not> includesStr ''abc'' ''ac''"
  by code_simp

end
